theory Spec2Isabelle
  imports Main
begin

text \<open>
  The boot file \<^verbatim>\<open>index.js\<close> of the form server: the log and audit functions, the
  request middleware it installs, and the boot sequence \<^verbatim>\<open>router.init\<close> that creates the
  hook system, installs the default middleware unless a hook takes a step over,
  constructs and registers the evaluator, and connects to MongoDB. Each function is a
  run: the list of calls it makes on the world outside the file, in order, and a result
  or an exception. The modules the file only calls (the hook system, the evaluator, the
  database layer, the libraries) are parameters of the model.
\<close>

section \<open>JavaScript values\<close>

text \<open>
  The boot file \<^verbatim>\<open>index.js\<close> handles untyped JavaScript values: configuration
  properties, hook results, log arguments. They are modelled by one datatype. Numbers
  are the integers (the timeout and the heap limit are whole numbers of milliseconds and
  megabytes) together with \<open>JNaN\<close>; a property that is absent reads as \<open>JUndefined\<close>.
  A function value is represented by its name.
\<close>

datatype jsvalue =
    JUndefined
  | JNull
  | JBool bool
  | JNum int
  | JNaN
  | JStr string
  | JArr "jsvalue list"
  | JObj "(string \<times> jsvalue) list"
  | JFun string

text \<open>The test of \<^verbatim>\<open>if (v)\<close> and of \<^verbatim>\<open>!v\<close>.\<close>

fun truthy :: "jsvalue \<Rightarrow> bool" where
  "truthy JUndefined = False"
| "truthy JNull = False"
| "truthy (JBool b) = b"
| "truthy (JNum n) = (n \<noteq> 0)"
| "truthy JNaN = False"
| "truthy (JStr s) = (s \<noteq> [])"
| "truthy (JArr xs) = True"
| "truthy (JObj kvs) = True"
| "truthy (JFun f) = True"

text \<open>
  What the code throws. \<open>Thrown v\<close> is a value thrown by code that is not part of
  \<^verbatim>\<open>index.js\<close> (a hook handler, the database layer, a library).
\<close>

datatype error =
    TypeError
  | ConfigurationError
  | Thrown jsvalue

text \<open>
  The value a \<^verbatim>\<open>catch (error)\<close> clause binds, and the reading of its
  \<^verbatim>\<open>.message\<close>, which raises a TypeError when the value thrown is \<^verbatim>\<open>null\<close> or
  \<^verbatim>\<open>undefined\<close>.
\<close>

fun caught :: "error \<Rightarrow> jsvalue" where
  "caught TypeError = JObj [(''name'', JStr ''TypeError'')]"
| "caught ConfigurationError = JObj [(''name'', JStr ''ConfigurationError'')]"
| "caught (Thrown v) = v"

fun message :: "error \<Rightarrow> error + jsvalue" where
  "message TypeError = Inr (JStr ''TypeError'')"
| "message ConfigurationError = Inr (JStr ''ConfigurationError'')"
| "message (Thrown JUndefined) = Inl TypeError"
| "message (Thrown JNull) = Inl TypeError"
| "message (Thrown (JObj kvs)) =
     Inr (case map_of kvs ''message'' of Some m \<Rightarrow> m | None \<Rightarrow> JUndefined)"
| "message (Thrown v) = Inr JUndefined"

text \<open>
  The spread \<^verbatim>\<open>f(...v)\<close> of a call: an array gives its elements, a string its
  characters, and a value that is not iterable raises a TypeError.
\<close>

fun spread :: "jsvalue \<Rightarrow> error + jsvalue list" where
  "spread (JArr xs) = Inr xs"
| "spread (JStr s) = Inr (map (\<lambda>c. JStr [c]) s)"
| "spread v = Inl TypeError"

section \<open>The objects the boot file works with\<close>

text \<open>
  The hook system (\<^verbatim>\<open>./src/util/hook\<close>) is not part of the boot file: the object it
  returns is taken as a pair of functions, \<^verbatim>\<open>invoke(name, step, router.formio)\<close> and
  \<^verbatim>\<open>alter(name, ...args)\<close>, each returning a value or throwing.
\<close>

record hookobj =
  invoke :: "string \<Rightarrow> string \<Rightarrow> error + jsvalue"
  alter :: "string \<Rightarrow> jsvalue list \<Rightarrow> error + jsvalue"

text \<open>
  \<^verbatim>\<open>router.formio\<close>: the properties \<^verbatim>\<open>router.init\<close> assigns and the boot steps read.
  \<open>hook = None\<close> is the object before \<^verbatim>\<open>router.init\<close> has created the hook system.
\<close>

record formio =
  hooks :: jsvalue
  hook :: "hookobj option"
  db :: jsvalue

text \<open>The properties of \<^verbatim>\<open>config\<close> that the modelled code reads.\<close>

record config =
  audit :: jsvalue
  maxOldSpace :: jsvalue
  vmTimeout :: jsvalue
  mongoConfig :: jsvalue

text \<open>
  An evaluator instance: the options it was built from and the hook system it was given
  (\<^verbatim>\<open>new IsolateVMEvaluator({timeoutMs: ...}, router.formio.hook)\<close>).
\<close>

record evaluator =
  timeoutMs :: jsvalue
  registry :: "hookobj option"

text \<open>What \<^verbatim>\<open>router.use\<close> and \<^verbatim>\<open>router.get\<close> are given.\<close>

datatype handler =
    MemoryLeakPrevention
  | Middleware string
  | UpdateSanityCheck
  | BodyParserUrlencoded
  | BodyParserJson
  | MalformedJson
  | CorsWrapper jsvalue
  | Auth string
  | Altered jsvalue
  | FormComponents
  | Swagger

datatype route =
    Use handler
  | UseAt string handler
  | Get string handler

text \<open>
  The calls the boot file makes on the world outside it, in the order it makes them.
  \<open>Assign\<close> is an assignment to a property of a shared object, \<open>Call\<close> a call of a
  function of another module that no claim looks into.
\<close>

datatype event =
    HookCreate jsvalue
  | HookInvoke string string
  | HookAlter string "jsvalue list"
  | DebugLog "jsvalue list"
  | ConsoleLog "jsvalue list"
  | UtilLog jsvalue
  | Router route
  | NewEvaluator jsvalue "hookobj option"
  | RegisterEvaluator evaluator
  | MongooseConnect
  | Assign string jsvalue
  | Call string
  | Next
  | CorsRoute jsvalue

text \<open>
  The code of the repository and of its libraries that the boot file calls and that is
  not in the boot file: each call returns a value or throws.
  \<open>heap_over\<close> is the floating-point test \<^verbatim>\<open>config.maxOldSpace * 0.8 < heap\<close>.
\<close>

record env =
  make_hook :: "jsvalue \<Rightarrow> error + hookobj"
  new_evaluator :: "jsvalue \<Rightarrow> hookobj option \<Rightarrow> error + evaluator"
  external :: "string \<Rightarrow> error + jsvalue"
  heap_over :: "jsvalue \<Rightarrow> jsvalue \<Rightarrow> bool"

section \<open>Running code: the calls made, and a result or an exception\<close>

type_synonym 'a run = "event list \<times> (error + 'a)"

definition ret :: "'a \<Rightarrow> 'a run" where
  "ret x = ([], Inr x)"

definition throw :: "error \<Rightarrow> 'a run" where
  "throw e = ([], Inl e)"

definition emit :: "event \<Rightarrow> unit run" where
  "emit ev = ([ev], Inr ())"

definition lift :: "error + 'a \<Rightarrow> 'a run" where
  "lift r = ([], r)"

text \<open>\<open>bnd m f\<close>: run \<open>m\<close>; an exception ends the run, a result goes to \<open>f\<close>.\<close>

definition bnd :: "'a run \<Rightarrow> ('a \<Rightarrow> 'b run) \<Rightarrow> 'b run" where
  "bnd m f =
     (case snd m of
        Inl e \<Rightarrow> (fst m, Inl e)
      | Inr a \<Rightarrow> (fst m @ fst (f a), snd (f a)))"

text \<open>A block of statements.\<close>

fun seqs :: "unit run list \<Rightarrow> unit run" where
  "seqs [] = ret ()"
| "seqs (m # ms) = bnd m (\<lambda>_. seqs ms)"

text \<open>\<^verbatim>\<open>try { m } catch (e) { h e }\<close>\<close>

definition try_catch :: "'a run \<Rightarrow> (error \<Rightarrow> 'a run) \<Rightarrow> 'a run" where
  "try_catch m h =
     (case snd m of
        Inl e \<Rightarrow> (fst m @ fst (h e), snd (h e))
      | Inr a \<Rightarrow> m)"

text \<open>
  \<^verbatim>\<open>router.formio.hook.alter(name, ...args)\<close> and
  \<^verbatim>\<open>router.formio.hook.invoke(name, step, router.formio)\<close>: reading a method of
  \<^verbatim>\<open>router.formio.hook\<close> while it is undefined raises a TypeError.
\<close>

definition hook_alter :: "formio \<Rightarrow> string \<Rightarrow> jsvalue list \<Rightarrow> jsvalue run" where
  "hook_alter f name args =
     (case hook f of
        None \<Rightarrow> throw TypeError
      | Some h \<Rightarrow> ([HookAlter name args], alter h name args))"

definition hook_invoke :: "formio \<Rightarrow> string \<Rightarrow> string \<Rightarrow> jsvalue run" where
  "hook_invoke f name step =
     (case hook f of
        None \<Rightarrow> throw TypeError
      | Some h \<Rightarrow> ([HookInvoke name step], invoke h name step))"

definition call :: "env \<Rightarrow> string \<Rightarrow> jsvalue run" where
  "call env name = ([Call name], external env name)"

definition call_unit :: "env \<Rightarrow> string \<Rightarrow> unit run" where
  "call_unit env name = bnd (call env name) (\<lambda>_. ret ())"

section \<open>The log and audit functions (lines 47 to 63)\<close>

text \<open>
  \<^verbatim>\<open>
  router.formio.log = (event, req, ...info) => {
    const result = router.formio.hook.alter('log', event, req, ...info);
    if (result) { log(event, ...info); }
  };
  \<close>
\<close>

definition formio_log :: "formio \<Rightarrow> jsvalue \<Rightarrow> jsvalue \<Rightarrow> jsvalue list \<Rightarrow> unit run" where
  "formio_log f event req info =
     bnd (hook_alter f ''log'' (event # req # info)) (\<lambda>result.
       if truthy result then emit (DebugLog (event # info)) else ret ())"

text \<open>
  \<^verbatim>\<open>
  router.formio.audit = (event, req, ...info) => {
    if (config.audit) {
      const result = router.formio.hook.alter('audit', info, event, req);
      if (result) { console.log(...result); }
    }
  };
  \<close>
\<close>

definition formio_audit ::
  "config \<Rightarrow> formio \<Rightarrow> jsvalue \<Rightarrow> jsvalue \<Rightarrow> jsvalue list \<Rightarrow> unit run" where
  "formio_audit config f event req info =
     (if truthy (audit config) then
        bnd (hook_alter f ''audit'' [JArr info, event, req]) (\<lambda>result.
          if truthy result
          then bnd (lift (spread result)) (\<lambda>args. emit (ConsoleLog args))
          else ret ())
      else ret ())"

section \<open>The request middleware of \<^verbatim>\<open>router.init\<close>\<close>

text \<open>
  The middleware installed by \<^verbatim>\<open>setupMemoryLeakPrevention\<close> (lines 70 to 87), run on one
  request:
  \<^verbatim>\<open>
  util.Formio.forms = {};
  util.Formio.cache = {};
  try {
    if (config.maxOldSpace) {
      const heap = process.memoryUsage().heapTotal / 1024 / 1024;
      if (config.maxOldSpace * 0.8 < heap) { gc(); }
    }
  }
  catch (error) { console.log(error); }
  next();
  \<close>
  \<^verbatim>\<open>process.memoryUsage\<close> and \<^verbatim>\<open>gc\<close> are calls that may throw; \<open>Next\<close> is the call of
  \<^verbatim>\<open>next()\<close>.
\<close>

definition memoryLeakPrevention :: "env \<Rightarrow> config \<Rightarrow> unit run" where
  "memoryLeakPrevention env config = seqs
     [emit (Assign ''util.Formio.forms'' (JObj [])),
      emit (Assign ''util.Formio.cache'' (JObj [])),
      try_catch
        (if truthy (maxOldSpace config) then
           bnd (call env ''process.memoryUsage'') (\<lambda>heap.
             if heap_over env (maxOldSpace config) heap then call_unit env ''gc'' else ret ())
         else ret ())
        (\<lambda>error. emit (ConsoleLog [caught error])),
      emit Next]"

text \<open>
  The CORS wrapper (lines 116 to 126), closed over \<^verbatim>\<open>corsRoute = cors(options)\<close>:
  \<^verbatim>\<open>
  if (req.url === '/') { return next(); }
  if (res.headersSent) { return next(); }
  corsRoute(req, res, next);
  \<close>
\<close>

record request =
  url :: jsvalue

record response =
  headersSent :: jsvalue

definition corsWrapper :: "jsvalue \<Rightarrow> request \<Rightarrow> response \<Rightarrow> unit run" where
  "corsWrapper options req res =
     (if url req = JStr ''/'' then emit Next
      else if truthy (headersSent res) then emit Next
      else emit (CorsRoute options))"

section \<open>The boot steps of \<^verbatim>\<open>router.init\<close>\<close>

text \<open>
  \<^verbatim>\<open>router.use\<close> and \<^verbatim>\<open>router.get\<close> throw when they are given something that is not a
  function or an array (of arrays) of functions. The handlers that the boot file takes
  from its modules are functions; the handlers of \<^verbatim>\<open>/current\<close> are whatever the hook
  system returned.
\<close>

fun callable :: "jsvalue \<Rightarrow> bool" where
  "callable (JFun f) = True"
| "callable (JArr xs) = (\<forall>x\<in>set xs. callable x)"
| "callable v = False"

fun handler_ok :: "handler \<Rightarrow> bool" where
  "handler_ok (Altered v) = callable v"
| "handler_ok h = True"

definition not_a_function :: error where
  "not_a_function = Thrown (JObj [(''message'', JStr ''requires a callback function'')])"

definition router_use :: "handler \<Rightarrow> unit run" where
  "router_use h = (if handler_ok h then emit (Router (Use h)) else throw not_a_function)"

definition router_use_at :: "string \<Rightarrow> handler \<Rightarrow> unit run" where
  "router_use_at path h =
     (if handler_ok h then emit (Router (UseAt path h)) else throw not_a_function)"

definition router_get :: "string \<Rightarrow> handler \<Rightarrow> unit run" where
  "router_get path h =
     (if handler_ok h then emit (Router (Get path h)) else throw not_a_function)"

definition setupMemoryLeakPrevention :: "unit run" where
  "setupMemoryLeakPrevention = router_use MemoryLeakPrevention"

text \<open>
  The statement that \<^verbatim>\<open>setupMiddlewares\<close> repeats for each step:
  \<^verbatim>\<open>if (!router.formio.hook.invoke('init', step, router.formio)) { dflt }\<close>
\<close>

definition unless_invoked :: "formio \<Rightarrow> string \<Rightarrow> unit run \<Rightarrow> unit run" where
  "unless_invoked f step dflt =
     bnd (hook_invoke f ''init'' step) (\<lambda>r. if \<not> truthy r then dflt else ret ())"

text \<open>The statements of \<^verbatim>\<open>setupMiddlewares\<close> (lines 90 to 165), in their order.\<close>

definition setupMiddlewares_body :: "env \<Rightarrow> formio \<Rightarrow> unit run list" where
  "setupMiddlewares_body env f =
     [unless_invoked f ''alias'' (router_use (Middleware ''alias'')),
      unless_invoked f ''params'' (router_use (Middleware ''params'')),
      router_use UpdateSanityCheck,
      router_use BodyParserUrlencoded,
      router_use BodyParserJson,
      router_use MalformedJson,
      bnd (hook_alter f ''cors'' []) (\<lambda>options. router_use (CorsWrapper options)),
      call_unit env ''require(./src/authentication/index)(router)'',
      unless_invoked f ''token'' (router_use (Middleware ''tokenHandler'')),
      unless_invoked f ''getTempToken'' (router_get ''/token'' (Auth ''tempToken'')),
      unless_invoked f ''logout'' (router_get ''/logout'' (Auth ''logout'')),
      unless_invoked f ''current''
        (bnd (hook_alter f ''currentUser'' [JArr [JFun ''router.formio.auth.currentUser'']])
           (\<lambda>handlers. router_get ''/current'' (Altered handlers))),
      unless_invoked f ''access'' (router_get ''/access'' (Middleware ''accessHandler'')),
      unless_invoked f ''config'' (router_use_at ''/config.json'' (Middleware ''configHandler'')),
      unless_invoked f ''perms'' (router_use (Middleware ''permissionHandler''))]"

definition setupMiddlewares :: "env \<Rightarrow> formio \<Rightarrow> unit run" where
  "setupMiddlewares env f = seqs (setupMiddlewares_body env f)"

text \<open>
  \<^verbatim>\<open>configureEvaluator\<close> (lines 309 to 313):
  \<^verbatim>\<open>
  const evaluator = new IsolateVMEvaluator({timeoutMs: config.vmTimeout}, router.formio.hook);
  registerEvaluator(evaluator);
  \<close>
  The constructor is the parameter \<open>new_evaluator\<close>.
\<close>

definition configureEvaluator :: "env \<Rightarrow> config \<Rightarrow> formio \<Rightarrow> unit run" where
  "configureEvaluator env config f =
     bnd ([NewEvaluator (vmTimeout config) (hook f)],
          new_evaluator env (vmTimeout config) (hook f))
       (\<lambda>evaluator. emit (RegisterEvaluator evaluator))"

text \<open>
  \<^verbatim>\<open>connectToMongoDB\<close> (lines 198 to 305): the connection, then the models, resources
  and routes that need it; an exception of any of them is caught, its message logged
  and thrown (\<^verbatim>\<open>util.log(err.message); throw err.message\<close>).
\<close>

definition connectToMongoDB :: "env \<Rightarrow> formio \<Rightarrow> formio run" where
  "connectToMongoDB env f =
     try_catch
       (bnd (seqs
          [bnd ([MongooseConnect], external env ''mongoose.connect'') (\<lambda>_. ret ()),
           emit (UtilLog (JStr '' > Mongo connection established.'')),
           call_unit env ''require: models, schemas, resources, cache'',
           router_get ''/form/:formId/components'' FormComponents,
           call_unit env ''require: actions, export, templates, swagger'',
           router_get ''/spec.json'' Swagger,
           router_get ''/form/:formId/spec.json'' Swagger,
           call_unit env ''require(./src/middleware/recaptcha)(router)''])
          (\<lambda>_. ret (f\<lparr>db := JFun ''mongoose.connection''\<rparr>)))
       (\<lambda>err. bnd (lift (message err)) (\<lambda>m.
               bnd (emit (UtilLog m)) (\<lambda>_. throw (Thrown m))))"

text \<open>
  \<^verbatim>\<open>setupMongoDBConnection\<close> (lines 167 to 307):
  \<^verbatim>\<open>
  let mongoConfig = config.mongoConfig ? JSON.parse(config.mongoConfig) : {};
  if (!mongoConfig.hasOwnProperty('connectTimeoutMS')) { mongoConfig.connectTimeoutMS = 300000; }
  if (!mongoConfig.hasOwnProperty('socketTimeoutMS')) { mongoConfig.socketTimeoutMS = 300000; }
  \<close>
  \<^verbatim>\<open>JSON.parse\<close> may throw. When it gives \<^verbatim>\<open>null\<close> the call of \<^verbatim>\<open>hasOwnProperty\<close>
  raises a TypeError, and when it gives a number, a string or a boolean the assignment of
  the property does (the file is in strict mode). The rest of lines 176 to 190 shapes the
  options and cannot throw; the value of the options is not modelled.
\<close>

fun is_object :: "jsvalue \<Rightarrow> bool" where
  "is_object (JObj kvs) = True"
| "is_object (JArr xs) = True"
| "is_object (JFun f) = True"
| "is_object v = False"

definition setupMongoDBConnection :: "env \<Rightarrow> config \<Rightarrow> formio \<Rightarrow> formio run" where
  "setupMongoDBConnection env config f =
     bnd (if truthy (mongoConfig config) then call env ''JSON.parse'' else ret (JObj []))
       (\<lambda>options.
     bnd (if is_object options then ret () else throw TypeError) (\<lambda>_.
     bnd (call_unit env ''mongoose.ObjectId.set'') (\<lambda>_. connectToMongoDB env f)))"

text \<open>
  \<^verbatim>\<open>router.init\<close> (lines 315 to 344). \<open>f\<close> is \<^verbatim>\<open>router.formio\<close> when the call starts.
\<close>

definition router_init :: "env \<Rightarrow> config \<Rightarrow> formio \<Rightarrow> jsvalue \<Rightarrow> formio run" where
  "router_init env config f hooks_arg =
     (let f1 = f\<lparr>hooks := hooks_arg\<rparr> in
      bnd ([HookCreate hooks_arg], make_hook env hooks_arg) (\<lambda>h.
      let f2 = f1\<lparr>hook := Some h\<rparr> in
      bnd (hook_alter f2 ''configFormio'' [JObj [(''Formio'', JFun ''util.Formio'')]]) (\<lambda>_.
      bnd (call env ''require(./src/util/encrypt)'') (\<lambda>_.
      bnd (call env ''require(./src/db/index)(router.formio)'') (\<lambda>_.
      bnd (call env ''router.formio.update.initialize'') (\<lambda>connection.
      bnd (emit (UtilLog (JStr ''Initializing API Server.''))) (\<lambda>_.
      let f3 = f2\<lparr>db := connection\<rparr> in
      bnd setupMemoryLeakPrevention (\<lambda>_.
      bnd (setupMiddlewares env f3) (\<lambda>_.
      bnd (configureEvaluator env config f3) (\<lambda>_.
      setupMongoDBConnection env config f3))))))))))"

section \<open>The parts of the repository that the boot file only calls\<close>

text \<open>
  The Hook Registry of the spec (sections 3 and 4.1): a mapping from the name of an
  extension point to the ordered sequence of its handlers. A handler of \<open>alter\<close>
  receives the current value and the further arguments of the call, and returns the next
  value or fails.
\<close>

type_synonym alter_handler = "jsvalue \<Rightarrow> jsvalue list \<Rightarrow> error + jsvalue"

type_synonym hook_registry = "string \<Rightarrow> alter_handler list"

text \<open>
  Modelled from the spec: \<open>register(pointName, handler)\<close> of the Hook Registry
  (\<^verbatim>\<open>./src/util/hook\<close> is not among the sources). It appends the handler to the
  sequence of the point; duplicates are allowed.
\<close>

definition register :: "hook_registry \<Rightarrow> string \<Rightarrow> alter_handler \<Rightarrow> hook_registry" where
  "register reg pointName h = reg(pointName := reg pointName @ [h])"

text \<open>
  Modelled from the spec: the chain of \<open>alter\<close> (\<^verbatim>\<open>./src/util/hook\<close> is not among the
  sources). The value passes through the handlers in registration order; a handler that
  fails fails the whole call; with no handler the value is returned unchanged.
\<close>

fun alter_chain :: "alter_handler list \<Rightarrow> jsvalue \<Rightarrow> jsvalue list \<Rightarrow> error + jsvalue" where
  "alter_chain [] v args = Inr v"
| "alter_chain (h # hs) v args =
     (case h v args of Inl e \<Rightarrow> Inl e | Inr v' \<Rightarrow> alter_chain hs v' args)"

text \<open>
  Modelled from the spec: \<open>alter(pointName, value, ...args)\<close> of the Hook Registry
  (\<^verbatim>\<open>./src/util/hook\<close> is not among the sources).
\<close>

definition registry_alter ::
  "hook_registry \<Rightarrow> string \<Rightarrow> jsvalue \<Rightarrow> jsvalue list \<Rightarrow> error + jsvalue" where
  "registry_alter reg pointName v args = alter_chain (reg pointName) v args"

text \<open>
  Modelled from the spec: the test of the option \<open>timeoutMs\<close> (\<^verbatim>\<open>./src/vm\<close> is not
  among the sources). The default execution budget is required to be a positive
  number (of milliseconds); an absent option, which reads as \<^verbatim>\<open>undefined\<close>, is not one.
\<close>

fun positive_number :: "jsvalue \<Rightarrow> bool" where
  "positive_number (JNum n) = (0 < n)"
| "positive_number v = False"

text \<open>
  Modelled from the spec: the constructor of the evaluator (\<^verbatim>\<open>./src/vm\<close> is not
  among the sources). Invalid options are a ConfigurationError, raised at configuration
  and not at the first use; valid ones give an instance holding the budget and the
  reference to the Hook Registry.
\<close>

definition IsolateVMEvaluator :: "jsvalue \<Rightarrow> hookobj option \<Rightarrow> error + evaluator" where
  "IsolateVMEvaluator t h =
     (if positive_number t then Inr \<lparr>timeoutMs = t, registry = h\<rparr>
      else Inl ConfigurationError)"

section \<open>Reading a run\<close>

fun returns :: "error + 'a \<Rightarrow> bool" where
  "returns (Inr x) = True"
| "returns (Inl e) = False"

text \<open>A call that returned a falsy value.\<close>

fun returns_falsy :: "error + jsvalue \<Rightarrow> bool" where
  "returns_falsy (Inr v) = (\<not> truthy v)"
| "returns_falsy (Inl e) = False"

fun returns_truthy :: "error + jsvalue \<Rightarrow> bool" where
  "returns_truthy (Inr v) = truthy v"
| "returns_truthy (Inl e) = False"

section \<open>What the claims speak of\<close>

text \<open>The call of \<^verbatim>\<open>next()\<close>.\<close>

fun is_next :: "event \<Rightarrow> bool" where
  "is_next Next = True"
| "is_next ev = False"

text \<open>
  The default of each init step, as lines 91 to 164 pair them: \<open>is_default step r\<close> says
  that the route \<open>r\<close> is what \<^verbatim>\<open>setupMiddlewares\<close> gives the router for \<open>step\<close> when
  no hook takes the step over. The handlers of \<^verbatim>\<open>/current\<close> are whatever the alteration
  of \<open>currentUser\<close> returned.
\<close>

fun is_default :: "string \<Rightarrow> route \<Rightarrow> bool" where
  "is_default step (Use (Middleware m)) =
     (step = ''alias'' \<and> m = ''alias'' \<or> step = ''params'' \<and> m = ''params'' \<or>
      step = ''token'' \<and> m = ''tokenHandler'' \<or> step = ''perms'' \<and> m = ''permissionHandler'')"
| "is_default step (Get path (Auth a)) =
     (step = ''getTempToken'' \<and> path = ''/token'' \<and> a = ''tempToken'' \<or>
      step = ''logout'' \<and> path = ''/logout'' \<and> a = ''logout'')"
| "is_default step (Get path (Altered handlers)) = (step = ''current'' \<and> path = ''/current'')"
| "is_default step (Get path (Middleware m)) =
     (step = ''access'' \<and> path = ''/access'' \<and> m = ''accessHandler'')"
| "is_default step (UseAt path (Middleware m)) =
     (step = ''config'' \<and> path = ''/config.json'' \<and> m = ''configHandler'')"
| "is_default step r = False"

text \<open>
  \<open>installed step t\<close>: in the run \<open>t\<close> the router was given the default of \<open>step\<close>;
  \<open>checked step t\<close>: in the run \<open>t\<close> the call
  \<^verbatim>\<open>hook.invoke('init', step, router.formio)\<close> was made.
\<close>

fun installs :: "string \<Rightarrow> event \<Rightarrow> bool" where
  "installs step (Router r) = is_default step r"
| "installs step ev = False"

fun checks :: "string \<Rightarrow> event \<Rightarrow> bool" where
  "checks step (HookInvoke name s) = (name = ''init'' \<and> s = step)"
| "checks step ev = False"

definition installed :: "string \<Rightarrow> event list \<Rightarrow> bool" where
  "installed step t = list_ex (installs step) t"

definition checked :: "string \<Rightarrow> event list \<Rightarrow> bool" where
  "checked step t = list_ex (checks step) t"

text \<open>The init steps that \<^verbatim>\<open>setupMiddlewares\<close> checks.\<close>

definition init_steps :: "string list" where
  "init_steps = [''alias'', ''params'', ''token'', ''getTempToken'', ''logout'', ''current'',
     ''access'', ''config'', ''perms'']"

text \<open>The kinds of calls that \<^verbatim>\<open>setupMiddlewares\<close> and \<^verbatim>\<open>setupMongoDBConnection\<close> make.\<close>

fun mw_kind :: "event \<Rightarrow> bool" where
  "mw_kind (HookInvoke name step) = True"
| "mw_kind (HookAlter name args) = True"
| "mw_kind (Router r) = True"
| "mw_kind (Call name) = (name \<noteq> ''router.formio.update.initialize'')"
| "mw_kind ev = False"

fun mongo_kind :: "event \<Rightarrow> bool" where
  "mongo_kind (Call name) = (name \<noteq> ''router.formio.update.initialize'')"
| "mongo_kind MongooseConnect = True"
| "mongo_kind (UtilLog v) = True"
| "mongo_kind (Router (Get p FormComponents)) = True"
| "mongo_kind (Router (Get p Swagger)) = True"
| "mongo_kind ev = False"

text \<open>The calls of the evaluator's constructor and of \<^verbatim>\<open>registerEvaluator\<close>.\<close>

fun is_evaluator_event :: "event \<Rightarrow> bool" where
  "is_evaluator_event (NewEvaluator t h) = True"
| "is_evaluator_event (RegisterEvaluator ev) = True"
| "is_evaluator_event ev = False"

text \<open>
  Lines 339 to 344 of \<^verbatim>\<open>router.init\<close>: the four set-up functions, run on the
  \<^verbatim>\<open>router.formio\<close> that the lines before them have prepared.
\<close>

definition boot_steps :: "env \<Rightarrow> config \<Rightarrow> formio \<Rightarrow> formio run" where
  "boot_steps env config f =
     bnd setupMemoryLeakPrevention (\<lambda>_.
     bnd (setupMiddlewares env f) (\<lambda>_.
     bnd (configureEvaluator env config f) (\<lambda>_.
     setupMongoDBConnection env config f)))"

text \<open>The argument of the alteration \<open>configFormio\<close> (line 325).\<close>

definition configFormio_args :: "jsvalue list" where
  "configFormio_args = [JObj [(''Formio'', JFun ''util.Formio'')]]"


fun is_register :: "event \<Rightarrow> bool" where
  "is_register (RegisterEvaluator ev) = True"
| "is_register ev = False"

text \<open>
  The phase of the boot a call belongs to:
  0 the creation of the hook system;
  1 the call of \<^verbatim>\<open>router.formio.update.initialize()\<close>, whose result lines 334 to 337
    store in \<^verbatim>\<open>router.formio.db\<close> as the database connection;
  2 the check of an init step and the installation of its default;
  3 the construction of the evaluator; 4 its registration;
  5 the connection of mongoose to MongoDB.
  Other calls have no phase.
\<close>

fun phase :: "event \<Rightarrow> nat list" where
  "phase (HookCreate hs) = [0]"
| "phase (Call name) = (if name = ''router.formio.update.initialize'' then [1] else [])"
| "phase (HookInvoke name step) = [2]"
| "phase (Router r) = (if list_ex (\<lambda>step. is_default step r) init_steps then [2] else [])"
| "phase (NewEvaluator t h) = [3]"
| "phase (RegisterEvaluator ev) = [4]"
| "phase MongooseConnect = [5]"
| "phase ev = []"

definition phases :: "event list \<Rightarrow> nat list" where
  "phases t = concat (map phase t)"

text \<open>
  The order as the spec words it, in which the connection to the storage comes last: the
  creation of the hook system (0), the init steps and their defaults (1), the
  construction of the evaluator (2), its registration (3), and every connection to the
  database (4), that of \<^verbatim>\<open>router.formio.update.initialize()\<close> as well as that of
  mongoose.
\<close>

fun claimed_phase :: "event \<Rightarrow> nat list" where
  "claimed_phase (HookCreate hs) = [0]"
| "claimed_phase (HookInvoke name step) = [1]"
| "claimed_phase (Router r) =
     (if list_ex (\<lambda>step. is_default step r) init_steps then [1] else [])"
| "claimed_phase (NewEvaluator t h) = [2]"
| "claimed_phase (RegisterEvaluator ev) = [3]"
| "claimed_phase (Call name) =
     (if name = ''router.formio.update.initialize'' then [4] else [])"
| "claimed_phase MongooseConnect = [4]"
| "claimed_phase ev = []"

definition claimed_phases :: "event list \<Rightarrow> nat list" where
  "claimed_phases t = concat (map claimed_phase t)"

text \<open>The calls of \<^verbatim>\<open>router.init\<close> before its four set-up functions, when none throws.\<close>

definition init_prelude :: "jsvalue \<Rightarrow> event list" where
  "init_prelude hooks_arg =
     [HookCreate hooks_arg, HookAlter ''configFormio'' configFormio_args,
      Call ''require(./src/util/encrypt)'',
      Call ''require(./src/db/index)(router.formio)'',
      Call ''router.formio.update.initialize'',
      UtilLog (JStr ''Initializing API Server.'')]"

text \<open>The calls \<^verbatim>\<open>router.init\<close> makes after creating the hook system and before line 339.\<close>

fun early_kind :: "event \<Rightarrow> bool" where
  "early_kind (HookAlter name args) = True"
| "early_kind (Call name) = True"
| "early_kind ev = False"

text \<open>Sample inputs: a configuration with auditing on, and hook systems.\<close>

definition sample_config :: config where
  "sample_config =
     \<lparr>audit = JBool True, maxOldSpace = JUndefined, vmTimeout = JNum 500,
      mongoConfig = JUndefined\<rparr>"

text \<open>A hook system whose handlers answer \<^verbatim>\<open>true\<close> to every \<^verbatim>\<open>alter\<close>.\<close>

definition approving_hook :: hookobj where
  "approving_hook =
     \<lparr>invoke = (\<lambda>name step. Inr (JBool False)), alter = (\<lambda>name args. Inr (JBool True))\<rparr>"

text \<open>
  A hook system that overrides the init step \<open>alias\<close> and no other, and whose \<^verbatim>\<open>alter\<close>
  returns the value it is given (\<^verbatim>\<open>undefined\<close> when the call carries none).
\<close>

definition overriding_hook :: hookobj where
  "overriding_hook =
     \<lparr>invoke = (\<lambda>name step. Inr (JBool (step = ''alias''))),
      alter = (\<lambda>name args. Inr (case args of [] \<Rightarrow> JUndefined | v # vs \<Rightarrow> v))\<rparr>"

text \<open>An environment in which every call returns, and \<^verbatim>\<open>router.formio\<close> after boot.\<close>

definition sample_env :: env where
  "sample_env =
     \<lparr>make_hook = (\<lambda>hs. Inr overriding_hook),
      new_evaluator = (\<lambda>t h. Inr \<lparr>timeoutMs = t, registry = h\<rparr>),
      external = (\<lambda>name. Inr JUndefined),
      heap_over = (\<lambda>limit heap. False)\<rparr>"

definition sample_formio :: formio where
  "sample_formio = \<lparr>hooks = JUndefined, hook = Some overriding_hook, db = JUndefined\<rparr>"

section \<open>Facts about runs\<close>

declare seqs.simps [simp del]

lemma fst_ret: "fst (ret x) = []"
  by (simp add: ret_def)

lemma snd_ret: "snd (ret x) = Inr x"
  by (simp add: ret_def)

lemma fst_throw: "fst (throw e) = []"
  by (simp add: throw_def)

lemma snd_throw: "snd (throw e) = Inl e"
  by (simp add: throw_def)

lemma fst_emit: "fst (emit ev) = [ev]"
  by (simp add: emit_def)

lemma snd_emit: "snd (emit ev) = Inr ()"
  by (simp add: emit_def)

lemma fst_lift: "fst (lift r) = []"
  by (simp add: lift_def)

lemma snd_lift: "snd (lift r) = r"
  by (simp add: lift_def)

lemma fst_bnd:
  "fst (bnd m f) = fst m @ (case snd m of Inl e \<Rightarrow> [] | Inr a \<Rightarrow> fst (f a))"
  by (simp add: bnd_def split: sum.split)

lemma snd_bnd:
  "snd (bnd m f) = (case snd m of Inl e \<Rightarrow> Inl e | Inr a \<Rightarrow> snd (f a))"
  by (simp add: bnd_def split: sum.split)

lemma fst_try_catch:
  "fst (try_catch m h) = fst m @ (case snd m of Inl e \<Rightarrow> fst (h e) | Inr a \<Rightarrow> [])"
  by (simp add: try_catch_def split: sum.split)

lemma snd_try_catch:
  "snd (try_catch m h) = (case snd m of Inl e \<Rightarrow> snd (h e) | Inr a \<Rightarrow> Inr a)"
  by (simp add: try_catch_def split: sum.split)

lemma fst_seqs_Nil: "fst (seqs []) = []"
  by (simp add: seqs.simps ret_def)

lemma snd_seqs_Nil: "snd (seqs []) = Inr ()"
  by (simp add: seqs.simps ret_def)

lemma fst_seqs_Cons:
  "fst (seqs (m # ms)) = fst m @ (if returns (snd m) then fst (seqs ms) else [])"
  by (cases "snd m") (simp_all add: seqs.simps fst_bnd)

lemma snd_seqs_Cons:
  "snd (seqs (m # ms)) = (if returns (snd m) then snd (seqs ms) else snd m)"
  by (cases "snd m") (simp_all add: seqs.simps snd_bnd)

lemmas run_simps = fst_ret snd_ret fst_throw snd_throw fst_emit snd_emit fst_lift snd_lift
  fst_bnd snd_bnd fst_try_catch snd_try_catch fst_seqs_Cons snd_seqs_Cons fst_seqs_Nil
  snd_seqs_Nil

lemma fst_hook_alter:
  "fst (hook_alter f name args) =
     (case hook f of None \<Rightarrow> [] | Some h \<Rightarrow> [HookAlter name args])"
  by (simp add: hook_alter_def throw_def split: option.split)

lemma snd_hook_alter:
  "snd (hook_alter f name args) =
     (case hook f of None \<Rightarrow> Inl TypeError | Some h \<Rightarrow> alter h name args)"
  by (simp add: hook_alter_def throw_def split: option.split)

lemma fst_call: "fst (call env name) = [Call name]"
  by (simp add: call_def)

lemma snd_call: "snd (call env name) = external env name"
  by (simp add: call_def)

lemma fst_call_unit: "fst (call_unit env name) = [Call name]"
  by (simp add: call_unit_def run_simps fst_call split: sum.split)

lemma returns_call_unit: "returns (snd (call_unit env name)) = returns (external env name)"
  by (simp add: call_unit_def run_simps snd_call split: sum.split)

lemma fst_unless_invoked:
  "fst (unless_invoked f step d) =
     (case hook f of
        None \<Rightarrow> []
      | Some h \<Rightarrow>
          HookInvoke ''init'' step #
            (if returns_falsy (invoke h ''init'' step) then fst d else []))"
  by (simp add: unless_invoked_def hook_invoke_def run_simps split: option.split sum.split)

lemma returns_unless_invoked:
  "returns (snd (unless_invoked f step d)) =
     (case hook f of
        None \<Rightarrow> False
      | Some h \<Rightarrow>
          returns_truthy (invoke h ''init'' step) \<or>
          returns_falsy (invoke h ''init'' step) \<and> returns (snd d))"
  by (simp add: unless_invoked_def hook_invoke_def run_simps split: option.split sum.split)

lemma router_simps:
  "fst (router_use x) = (if handler_ok x then [Router (Use x)] else [])"
  "returns (snd (router_use x)) = handler_ok x"
  "fst (router_use_at p x) = (if handler_ok x then [Router (UseAt p x)] else [])"
  "returns (snd (router_use_at p x)) = handler_ok x"
  "fst (router_get p x) = (if handler_ok x then [Router (Get p x)] else [])"
  "returns (snd (router_get p x)) = handler_ok x"
  by (simp_all add: router_use_def router_use_at_def router_get_def run_simps)

lemmas stmt_simps = fst_unless_invoked returns_unless_invoked router_simps fst_bnd snd_bnd
  fst_hook_alter snd_hook_alter fst_call_unit returns_call_unit

lemma seqs_event:
  "ev \<in> set (fst (seqs ms)) \<Longrightarrow>
     \<exists>m\<in>set ms. ev \<in> set (fst m) \<and> set (fst m) \<subseteq> set (fst (seqs ms))"
proof (induction ms)
  case Nil
  then show ?case by (simp add: fst_seqs_Nil)
next
  case (Cons m ms)
  show ?case
  proof (cases "ev \<in> set (fst m)")
    case True
    then show ?thesis by (auto simp add: fst_seqs_Cons)
  next
    case False
    with Cons.prems have r: "returns (snd m)" and "ev \<in> set (fst (seqs ms))"
      by (auto simp add: fst_seqs_Cons split: if_splits)
    with Cons.IH obtain m' where "m' \<in> set ms" "ev \<in> set (fst m')"
      "set (fst m') \<subseteq> set (fst (seqs ms))" by blast
    with r show ?thesis by (auto simp add: fst_seqs_Cons)
  qed
qed

lemma seqs_returns:
  "returns (snd (seqs ms)) \<Longrightarrow> m \<in> set ms \<Longrightarrow>
     returns (snd m) \<and> set (fst m) \<subseteq> set (fst (seqs ms))"
proof (induction ms)
  case Nil
  then show ?case by simp
next
  case (Cons a ms)
  from Cons.prems(1) have r: "returns (snd a)" "returns (snd (seqs ms))"
    by (auto simp add: snd_seqs_Cons split: if_splits)
  from Cons.prems(2) consider "m = a" | "m \<in> set ms" by auto
  then show ?case
  proof cases
    case 1
    with r show ?thesis by (auto simp add: fst_seqs_Cons)
  next
    case 2
    with Cons.IH r have "returns (snd m)" "set (fst m) \<subseteq> set (fst (seqs ms))" by auto
    with r show ?thesis by (auto simp add: fst_seqs_Cons)
  qed
qed



lemma falsy_not_truthy: "returns_falsy r \<Longrightarrow> \<not> returns_truthy r"
  by (cases r) simp_all

lemma unless_invoked_live:
  assumes "hook f = Some h" and "unless_invoked f step d \<in> set ms"
    and "returns (snd (seqs ms))"
  shows "HookInvoke ''init'' step \<in> set (fst (seqs ms)) \<and>
         (returns_falsy (invoke h ''init'' step) \<longrightarrow>
            returns (snd d) \<and> set (fst d) \<subseteq> set (fst (seqs ms)))"
  using seqs_returns [OF assms(3) assms(2)] assms(1)
  by (auto simp add: fst_unless_invoked returns_unless_invoked dest: falsy_not_truthy)

lemma live_step:
  assumes "hook f = Some h" and "returns (snd (seqs ms))"
    and "unless_invoked f step d \<in> set ms"
    and "returns (snd d) \<Longrightarrow> \<exists>ev\<in>set (fst d). installs step ev"
  shows "checked step (fst (seqs ms)) \<and>
         (returns_falsy (invoke h ''init'' step) \<longrightarrow> installed step (fst (seqs ms)))"
proof -
  from unless_invoked_live [OF assms(1) assms(3) assms(2)]
  have i: "HookInvoke ''init'' step \<in> set (fst (seqs ms))"
    and d: "returns_falsy (invoke h ''init'' step) \<Longrightarrow>
              returns (snd d) \<and> set (fst d) \<subseteq> set (fst (seqs ms))"
    by simp_all
  have "checks step (HookInvoke ''init'' step)" by simp
  with i have c: "checked step (fst (seqs ms))"
    unfolding checked_def list_ex_iff by blast
  have "installed step (fst (seqs ms))" if "returns_falsy (invoke h ''init'' step)"
    using d [OF that] assms(4) unfolding installed_def list_ex_iff by blast
  with c show ?thesis by simp
qed

lemma middlewares_live:
  assumes "hook f = Some h" and "returns (snd (setupMiddlewares env f))"
    and "step \<in> set init_steps"
  shows "checked step (fst (setupMiddlewares env f)) \<and>
         (returns_falsy (invoke h ''init'' step) \<longrightarrow> installed step (fst (setupMiddlewares env f)))"
proof -
  let ?ms = "setupMiddlewares_body env f"
  let ?goal = "\<lambda>step. checked step (fst (seqs ?ms)) \<and>
         (returns_falsy (invoke h ''init'' step) \<longrightarrow> installed step (fst (seqs ?ms)))"
  have r: "returns (snd (seqs ?ms))"
    using assms(2) by (simp add: setupMiddlewares_def)
  have s0: "?goal ''alias''"
    by (rule live_step [OF assms(1) r, where d = "router_use (Middleware ''alias'')"])
       (auto simp add: setupMiddlewares_body_def stmt_simps assms(1) split: sum.splits)
  have s1: "?goal ''params''"
    by (rule live_step [OF assms(1) r, where d = "router_use (Middleware ''params'')"])
       (auto simp add: setupMiddlewares_body_def stmt_simps assms(1) split: sum.splits)
  have s2: "?goal ''token''"
    by (rule live_step [OF assms(1) r, where d = "router_use (Middleware ''tokenHandler'')"])
       (auto simp add: setupMiddlewares_body_def stmt_simps assms(1) split: sum.splits)
  have s3: "?goal ''getTempToken''"
    by (rule live_step [OF assms(1) r, where d = "router_get ''/token'' (Auth ''tempToken'')"])
       (auto simp add: setupMiddlewares_body_def stmt_simps assms(1) split: sum.splits)
  have s4: "?goal ''logout''"
    by (rule live_step [OF assms(1) r, where d = "router_get ''/logout'' (Auth ''logout'')"])
       (auto simp add: setupMiddlewares_body_def stmt_simps assms(1) split: sum.splits)
  have s5: "?goal ''current''"
    by (rule live_step [OF assms(1) r, where d = "bnd (hook_alter f ''currentUser'' [JArr [JFun ''router.formio.auth.currentUser'']]) (\<lambda>handlers. router_get ''/current'' (Altered handlers))"])
       (auto simp add: setupMiddlewares_body_def stmt_simps assms(1) split: sum.splits)
  have s6: "?goal ''access''"
    by (rule live_step [OF assms(1) r, where d = "router_get ''/access'' (Middleware ''accessHandler'')"])
       (auto simp add: setupMiddlewares_body_def stmt_simps assms(1) split: sum.splits)
  have s7: "?goal ''config''"
    by (rule live_step [OF assms(1) r, where d = "router_use_at ''/config.json'' (Middleware ''configHandler'')"])
       (auto simp add: setupMiddlewares_body_def stmt_simps assms(1) split: sum.splits)
  have s8: "?goal ''perms''"
    by (rule live_step [OF assms(1) r, where d = "router_use (Middleware ''permissionHandler'')"])
       (auto simp add: setupMiddlewares_body_def stmt_simps assms(1) split: sum.splits)
  from assms(3) have "?goal step"
    unfolding init_steps_def using s0 s1 s2 s3 s4 s5 s6 s7 s8 by auto
  then show ?thesis by (simp add: setupMiddlewares_def)
qed

lemma stmt_kind:
  assumes "m \<in> set (setupMiddlewares_body env f)" and "ev \<in> set (fst m)"
  shows "mw_kind ev"
  using assms(1)
  apply (simp add: setupMiddlewares_body_def)
  apply (elim disjE)
  using assms(2)
  apply (auto simp add: stmt_simps split: if_splits sum.splits option.splits)
  done

lemma middlewares_kind: "ev \<in> set (fst (setupMiddlewares env f)) \<Longrightarrow> mw_kind ev"
  unfolding setupMiddlewares_def using seqs_event stmt_kind by blast

lemma fst_connect:
  "fst (bnd ([MongooseConnect], external env ''mongoose.connect'') (\<lambda>_. ret ())) = [MongooseConnect]"
  "returns (snd (bnd ([MongooseConnect], external env ''mongoose.connect'') (\<lambda>_. ret ()))) =
     returns (external env ''mongoose.connect'')"
  by (simp_all add: run_simps split: sum.split)

lemma connect_kind: "ev \<in> set (fst (connectToMongoDB env f)) \<Longrightarrow> mongo_kind ev"
  by (auto simp add: connectToMongoDB_def run_simps fst_connect router_simps fst_call_unit
      returns_call_unit split: if_splits sum.splits)

lemma connect_connects: "MongooseConnect \<in> set (fst (connectToMongoDB env f))"
  by (simp add: connectToMongoDB_def run_simps fst_connect)

lemma mongo_kind_all: "ev \<in> set (fst (setupMongoDBConnection env config f)) \<Longrightarrow> mongo_kind ev"
  by (auto simp add: setupMongoDBConnection_def run_simps fst_call snd_call fst_call_unit
      returns_call_unit dest: connect_kind split: if_splits sum.splits)

lemma mongo_connects:
  "returns (snd (setupMongoDBConnection env config f)) \<Longrightarrow>
     MongooseConnect \<in> set (fst (setupMongoDBConnection env config f))"
  by (auto simp add: setupMongoDBConnection_def run_simps fst_call snd_call fst_call_unit
      call_unit_def connect_connects split: if_splits sum.splits)

lemma fst_configureEvaluator:
  "fst (configureEvaluator env config f) =
     NewEvaluator (vmTimeout config) (hook f) #
       (case new_evaluator env (vmTimeout config) (hook f) of
          Inl e \<Rightarrow> []
        | Inr ev \<Rightarrow> [RegisterEvaluator ev])"
  by (simp add: configureEvaluator_def run_simps split: sum.split)

lemma snd_configureEvaluator:
  "snd (configureEvaluator env config f) =
     (case new_evaluator env (vmTimeout config) (hook f) of
        Inl e \<Rightarrow> Inl e
      | Inr ev \<Rightarrow> Inr ())"
  by (simp add: configureEvaluator_def run_simps split: sum.split)

lemma middlewares_no_evaluator [simp]:
  "filter is_evaluator_event (fst (setupMiddlewares env f)) = []"
proof -
  have "\<not> is_evaluator_event ev" if "ev \<in> set (fst (setupMiddlewares env f))" for ev
    using middlewares_kind [OF that] by (cases ev) simp_all
  then show ?thesis by (simp add: filter_empty_conv)
qed

lemma mongo_no_evaluator [simp]:
  "filter is_evaluator_event (fst (setupMongoDBConnection env config f)) = []"
proof -
  have "\<not> is_evaluator_event ev" if "ev \<in> set (fst (setupMongoDBConnection env config f))" for ev
    using mongo_kind_all [OF that] by (cases ev) simp_all
  then show ?thesis by (simp add: filter_empty_conv)
qed

lemma setup_mlp: "fst setupMemoryLeakPrevention = [Router (Use MemoryLeakPrevention)]"
  "snd setupMemoryLeakPrevention = Inr ()"
  by (simp_all add: setupMemoryLeakPrevention_def router_use_def run_simps)

lemma router_init_unfold:
  "router_init env config f hooks_arg =
     (case make_hook env hooks_arg of
        Inl e \<Rightarrow> ([HookCreate hooks_arg], Inl e)
      | Inr h \<Rightarrow>
     (case alter h ''configFormio'' configFormio_args of
        Inl e \<Rightarrow> ([HookCreate hooks_arg, HookAlter ''configFormio'' configFormio_args], Inl e)
      | Inr v \<Rightarrow>
     (case external env ''require(./src/util/encrypt)'' of
        Inl e \<Rightarrow>
          ([HookCreate hooks_arg, HookAlter ''configFormio'' configFormio_args,
            Call ''require(./src/util/encrypt)''], Inl e)
      | Inr v1 \<Rightarrow>
     (case external env ''require(./src/db/index)(router.formio)'' of
        Inl e \<Rightarrow>
          ([HookCreate hooks_arg, HookAlter ''configFormio'' configFormio_args,
            Call ''require(./src/util/encrypt)'',
            Call ''require(./src/db/index)(router.formio)''], Inl e)
      | Inr v2 \<Rightarrow>
     (case external env ''router.formio.update.initialize'' of
        Inl e \<Rightarrow>
          ([HookCreate hooks_arg, HookAlter ''configFormio'' configFormio_args,
            Call ''require(./src/util/encrypt)'',
            Call ''require(./src/db/index)(router.formio)'',
            Call ''router.formio.update.initialize''], Inl e)
      | Inr connection \<Rightarrow>
          ([HookCreate hooks_arg, HookAlter ''configFormio'' configFormio_args,
            Call ''require(./src/util/encrypt)'',
            Call ''require(./src/db/index)(router.formio)'',
            Call ''router.formio.update.initialize'',
            UtilLog (JStr ''Initializing API Server.'')] @
           fst (boot_steps env config (f\<lparr>hooks := hooks_arg, hook := Some h, db := connection\<rparr>)),
           snd (boot_steps env config
                  (f\<lparr>hooks := hooks_arg, hook := Some h, db := connection\<rparr>))))))))"
  by (simp add: router_init_def boot_steps_def configFormio_args_def Let_def fst_bnd snd_bnd
      fst_emit snd_emit fst_hook_alter snd_hook_alter fst_call snd_call prod_eq_iff
      split: sum.split)

lemma returns_configureEvaluator:
  "returns (snd (configureEvaluator env config f)) =
     returns (new_evaluator env (vmTimeout config) (hook f))"
  by (simp add: snd_configureEvaluator split: sum.split)

lemma fst_boot_steps:
  "fst (boot_steps env config f) =
     Router (Use MemoryLeakPrevention) # fst (setupMiddlewares env f) @
     (if returns (snd (setupMiddlewares env f)) then
        NewEvaluator (vmTimeout config) (hook f) #
        (case new_evaluator env (vmTimeout config) (hook f) of
           Inl e \<Rightarrow> []
         | Inr ev \<Rightarrow> RegisterEvaluator ev # fst (setupMongoDBConnection env config f))
      else [])"
  by (cases "snd (setupMiddlewares env f)")
     (simp_all add: boot_steps_def fst_bnd snd_bnd setup_mlp fst_configureEvaluator
      snd_configureEvaluator split: sum.split)

lemma snd_boot_steps:
  "snd (boot_steps env config f) =
     (case snd (setupMiddlewares env f) of
        Inl e \<Rightarrow> Inl e
      | Inr u \<Rightarrow>
          (case new_evaluator env (vmTimeout config) (hook f) of
             Inl e \<Rightarrow> Inl e
           | Inr ev \<Rightarrow> snd (setupMongoDBConnection env config f)))"
  by (simp add: boot_steps_def fst_bnd snd_bnd setup_mlp snd_configureEvaluator
      split: sum.split)

lemma boot_steps_evaluator:
  "filter is_evaluator_event (fst (boot_steps env config f)) =
     (if returns (snd (setupMiddlewares env f)) then
        NewEvaluator (vmTimeout config) (hook f) #
        (case new_evaluator env (vmTimeout config) (hook f) of
           Inl e \<Rightarrow> []
         | Inr ev \<Rightarrow> [RegisterEvaluator ev])
      else [])"
  by (simp add: fst_boot_steps split: sum.split)

lemma returns_boot_steps:
  "returns (snd (boot_steps env config f)) =
     (returns (snd (setupMiddlewares env f)) \<and>
      returns (new_evaluator env (vmTimeout config) (hook f)) \<and>
      returns (snd (setupMongoDBConnection env config f)))"
  by (simp add: snd_boot_steps split: sum.split)

lemma returnsE: "returns r \<Longrightarrow> (\<And>x. r = Inr x \<Longrightarrow> thesis) \<Longrightarrow> thesis"
  by (cases r) simp_all


lemma register_is_evaluator:
  "filter is_register (filter is_evaluator_event t) = filter is_register t"
proof (induction t)
  case Nil
  show ?case by simp
next
  case (Cons a t)
  then show ?case by (cases a) simp_all
qed

lemma boot_steps_register:
  "filter is_register (fst (boot_steps env config f)) =
     (if returns (snd (setupMiddlewares env f)) then
        (case new_evaluator env (vmTimeout config) (hook f) of
           Inl e \<Rightarrow> []
         | Inr ev \<Rightarrow> [RegisterEvaluator ev])
      else [])"
proof -
  have "filter is_register (filter is_evaluator_event (fst (boot_steps env config f))) =
     (if returns (snd (setupMiddlewares env f)) then
        (case new_evaluator env (vmTimeout config) (hook f) of
           Inl e \<Rightarrow> []
         | Inr ev \<Rightarrow> [RegisterEvaluator ev])
      else [])"
    by (simp only: boot_steps_evaluator) (simp split: sum.split)
  then show ?thesis by (simp only: register_is_evaluator)
qed


lemma router_init_cases:
  obtains (abort) pre where
      "fst (router_init env config f hooks_arg) = HookCreate hooks_arg # pre"
      "\<forall>ev\<in>set pre. early_kind ev"
      "\<not> returns (snd (router_init env config f hooks_arg))"
  | (boot) h connection where
      "make_hook env hooks_arg = Inr h"
      "fst (router_init env config f hooks_arg) =
         init_prelude hooks_arg @
         fst (boot_steps env config (f\<lparr>hooks := hooks_arg, hook := Some h, db := connection\<rparr>))"
      "snd (router_init env config f hooks_arg) =
         snd (boot_steps env config (f\<lparr>hooks := hooks_arg, hook := Some h, db := connection\<rparr>))"
proof (cases "make_hook env hooks_arg")
  case (Inl e)
  then show ?thesis by (intro abort [of "[]"]) (simp_all add: router_init_unfold)
next
  case h: (Inr h)
  show ?thesis
  proof (cases "alter h ''configFormio'' configFormio_args")
    case (Inl e)
    with h show ?thesis
      by (intro abort [of "[HookAlter ''configFormio'' configFormio_args]"])
         (simp_all add: router_init_unfold)
  next
    case a: (Inr v)
    show ?thesis
    proof (cases "external env ''require(./src/util/encrypt)''")
      case (Inl e)
      with h a show ?thesis
        by (intro abort [of "[HookAlter ''configFormio'' configFormio_args,
              Call ''require(./src/util/encrypt)'']"])
           (simp_all add: router_init_unfold)
    next
      case b: (Inr v1)
      show ?thesis
      proof (cases "external env ''require(./src/db/index)(router.formio)''")
        case (Inl e)
        with h a b show ?thesis
          by (intro abort [of "[HookAlter ''configFormio'' configFormio_args,
                Call ''require(./src/util/encrypt)'',
                Call ''require(./src/db/index)(router.formio)'']"])
             (simp_all add: router_init_unfold)
      next
        case c: (Inr v2)
        show ?thesis
        proof (cases "external env ''router.formio.update.initialize''")
          case (Inl e)
          with h a b c show ?thesis
            by (intro abort [of "[HookAlter ''configFormio'' configFormio_args,
                  Call ''require(./src/util/encrypt)'',
                  Call ''require(./src/db/index)(router.formio)'',
                  Call ''router.formio.update.initialize'']"])
               (simp_all add: router_init_unfold)
        next
          case d: (Inr connection)
          with h a b c show ?thesis
            by (intro boot [of h connection])
               (simp_all add: router_init_unfold init_prelude_def)
        qed
      qed
    qed
  qed
qed

lemma early_no_evaluator:
  assumes "\<forall>ev\<in>set pre. early_kind ev"
  shows "filter is_evaluator_event pre = []"
proof -
  have "\<not> is_evaluator_event ev" if "early_kind ev" for ev
    using that by (cases ev) simp_all
  with assms show ?thesis by (auto simp add: filter_empty_conv)
qed

lemma prelude_no_evaluator: "filter is_evaluator_event (init_prelude hs) = []"
  by (simp add: init_prelude_def)

lemma prelude_no_register: "filter is_register (init_prelude hs) = []"
  by (simp add: init_prelude_def)

lemma router_init_returns:
  assumes "returns (snd (router_init env config f hooks_arg))"
  obtains h connection where "make_hook env hooks_arg = Inr h"
    and "fst (router_init env config f hooks_arg) =
           init_prelude hooks_arg @ fst (boot_steps env config (f\<lparr>hooks := hooks_arg, hook := Some h, db := connection\<rparr>))"
    and "returns (snd (boot_steps env config (f\<lparr>hooks := hooks_arg, hook := Some h, db := connection\<rparr>)))"
proof (cases rule: router_init_cases [of env config f hooks_arg])
  case (abort pre)
  with assms show ?thesis by simp
next
  case (boot h connection)
  with assms that show ?thesis by simp
qed

lemma init_returns_evaluator:
  assumes "returns (snd (router_init env config f hooks_arg))"
  shows "\<exists>h ev. make_hook env hooks_arg = Inr h \<and>
       new_evaluator env (vmTimeout config) (Some h) = Inr ev \<and>
       filter is_evaluator_event (fst (router_init env config f hooks_arg)) =
         [NewEvaluator (vmTimeout config) (Some h), RegisterEvaluator ev]"
proof -
  from assms obtain h connection where h: "make_hook env hooks_arg = Inr h"
    and t: "fst (router_init env config f hooks_arg) =
           init_prelude hooks_arg @ fst (boot_steps env config (f\<lparr>hooks := hooks_arg, hook := Some h, db := connection\<rparr>))"
    and r: "returns (snd (boot_steps env config (f\<lparr>hooks := hooks_arg, hook := Some h, db := connection\<rparr>)))"
    by (rule router_init_returns)
  from r have m: "returns (snd (setupMiddlewares env (f\<lparr>hooks := hooks_arg, hook := Some h, db := connection\<rparr>)))"
    and "returns (new_evaluator env (vmTimeout config) (Some h))"
    by (simp_all add: returns_boot_steps)
  then obtain ev where ev: "new_evaluator env (vmTimeout config) (Some h) = Inr ev"
    by (auto elim: returnsE)
  from t m ev have "filter is_evaluator_event (fst (router_init env config f hooks_arg)) =
         [NewEvaluator (vmTimeout config) (Some h), RegisterEvaluator ev]"
    by (simp add: boot_steps_evaluator prelude_no_evaluator)
  with h ev show ?thesis by blast
qed



lemma init_no_register:
  assumes "\<And>h. new_evaluator env (vmTimeout config) h = Inl e"
  shows "filter is_register (fst (router_init env config f hooks_arg)) = []"
proof (cases rule: router_init_cases [of env config f hooks_arg])
  case (abort pre)
  then have "filter is_register (filter is_evaluator_event
      (fst (router_init env config f hooks_arg))) = []"
    by (simp add: early_no_evaluator)
  then show ?thesis by (simp only: register_is_evaluator)
next
  case (boot h connection)
  with assms show ?thesis
    by (simp add: prelude_no_register boot_steps_register)
qed

lemma phases_simps:
  "phases [] = []" "phases (ev # t) = phase ev @ phases t" "phases (t @ t') = phases t @ phases t'"
  by (simp_all add: phases_def)

lemma mw_kind_phase: "mw_kind ev \<Longrightarrow> x \<in> set (phase ev) \<Longrightarrow> x = 2"
  by (cases ev) (simp_all split: if_splits)

lemma mongo_kind_phase: "mongo_kind ev \<Longrightarrow> x \<in> set (phase ev) \<Longrightarrow> x = 5"
  by (cases ev rule: mongo_kind.cases) (simp_all add: init_steps_def)

lemma phases_middlewares: "x \<in> set (phases (fst (setupMiddlewares env f))) \<Longrightarrow> x = 2"
  using middlewares_kind mw_kind_phase by (fastforce simp add: phases_def)

lemma phases_mongo: "x \<in> set (phases (fst (setupMongoDBConnection env config f))) \<Longrightarrow> x = 5"
  using mongo_kind_all mongo_kind_phase by (fastforce simp add: phases_def)

lemma sorted_const: "(\<And>x. x \<in> set xs \<Longrightarrow> x = c) \<Longrightarrow> sorted xs"
  by (induction xs) auto

lemma const_replicate: "(\<And>x. x \<in> set xs \<Longrightarrow> x = c) \<Longrightarrow> xs = replicate (length xs) c"
  by (induction xs) auto

lemma phases_boot_steps:
  "phases (fst (boot_steps env config f)) =
     phases (fst (setupMiddlewares env f)) @
     (if returns (snd (setupMiddlewares env f)) then
        3 # (case new_evaluator env (vmTimeout config) (hook f) of
               Inl e \<Rightarrow> []
             | Inr ev \<Rightarrow> 4 # phases (fst (setupMongoDBConnection env config f)))
      else [])"
  by (simp add: fst_boot_steps phases_simps init_steps_def split: sum.split)

lemma boot_steps_sorted:
  "sorted (phases (fst (boot_steps env config f))) \<and>
   (\<forall>x\<in>set (phases (fst (boot_steps env config f))). 1 \<le> x)"
proof -
  let ?a = "phases (fst (setupMiddlewares env f))"
  let ?b = "phases (fst (setupMongoDBConnection env config f))"
  have a: "sorted ?a" "\<forall>x\<in>set ?a. x = 2"
    using phases_middlewares by (blast intro: sorted_const)+
  have b: "sorted ?b" "\<forall>x\<in>set ?b. x = 5"
    using phases_mongo by (blast intro: sorted_const)+
  have c: "sorted (xs @ 3 # 4 # ys) \<and> (\<forall>x\<in>set (xs @ 3 # 4 # ys). 1 \<le> x)"
    if "sorted xs" "\<forall>x\<in>set xs. x = 2" "sorted ys" "\<forall>x\<in>set ys. x = 5" for xs ys :: "nat list"
    using that by (force simp add: sorted_append)
  have d: "sorted (xs @ [3]) \<and> (\<forall>x\<in>set (xs @ [3]). 1 \<le> x)"
    if "sorted xs" "\<forall>x\<in>set xs. x = 2" for xs :: "nat list"
    using that by (force simp add: sorted_append)
  have e: "\<forall>x\<in>set xs. 1 \<le> x" if "\<forall>x\<in>set xs. x = 2" for xs :: "nat list"
    using that by auto
  show ?thesis
  proof (cases "returns (snd (setupMiddlewares env f))")
    case False
    with a e show ?thesis by (simp add: phases_boot_steps)
  next
    case True
    show ?thesis
    proof (cases "new_evaluator env (vmTimeout config) (hook f)")
      case (Inl x)
      with True d [OF a] show ?thesis by (simp add: phases_boot_steps)
    next
      case (Inr ev)
      with True c [OF a b] show ?thesis by (simp add: phases_boot_steps)
    qed
  qed
qed

lemma early_kind_phase: "early_kind ev \<Longrightarrow> x \<in> set (phase ev) \<Longrightarrow> x = 1"
  by (cases ev) (simp_all split: if_splits)

lemma prelude_phases: "phases (init_prelude hs @ t) = 0 # 1 # phases t"
  by (simp add: init_prelude_def phases_simps)

lemma prelude_tl: "tl (init_prelude hs @ t) = tl (init_prelude hs) @ t"
  by (simp add: init_prelude_def)

lemma prelude_tl_phases: "phases (tl (init_prelude hs) @ t) = 1 # phases t"
  by (simp add: init_prelude_def phases_simps)

lemma init_head:
  "fst (router_init env config f hooks_arg) =
     HookCreate hooks_arg # tl (fst (router_init env config f hooks_arg))"
proof (cases rule: router_init_cases [of env config f hooks_arg])
  case (abort pre)
  then show ?thesis by simp
next
  case (boot h connection)
  then show ?thesis by (simp add: init_prelude_def)
qed

lemma init_phases:
  "sorted (phases (tl (fst (router_init env config f hooks_arg)))) \<and>
   (\<forall>x\<in>set (phases (tl (fst (router_init env config f hooks_arg)))). 1 \<le> x)"
proof (cases rule: router_init_cases [of env config f hooks_arg])
  case (abort pre)
  have one: "x = 1" if "x \<in> set (phases pre)" for x
    using that abort(2) early_kind_phase by (fastforce simp add: phases_def)
  then have "sorted (phases pre)" by (rule sorted_const)
  moreover from one have "\<forall>x\<in>set (phases pre). 1 \<le> x" by force
  ultimately show ?thesis using abort(1) by simp
next
  case (boot h connection)
  with boot_steps_sorted [of env config "(f\<lparr>hooks := hooks_arg, hook := Some h, db := connection\<rparr>)"]
  show ?thesis by (simp add: prelude_tl prelude_tl_phases)
qed

lemma middlewares_return_hook:
  assumes "returns (snd (setupMiddlewares env f))"
  shows "\<exists>h. hook f = Some h"
proof -
  let ?m = "unless_invoked f ''alias'' (router_use (Middleware ''alias''))"
  have "?m \<in> set (setupMiddlewares_body env f)"
    by (simp add: setupMiddlewares_body_def)
  moreover from assms have "returns (snd (seqs (setupMiddlewares_body env f)))"
    by (simp add: setupMiddlewares_def)
  ultimately have "returns (snd ?m)"
    using seqs_returns by blast
  then show ?thesis
    by (cases "hook f") (simp_all add: returns_unless_invoked)
qed

lemma middlewares_all_checked:
  assumes "returns (snd (setupMiddlewares env f))" and "step \<in> set init_steps"
  shows "checked step (fst (setupMiddlewares env f))"
  using middlewares_return_hook [OF assms(1)] middlewares_live [OF _ assms] by blast

lemma checked_phase:
  assumes "checked step t"
  shows "2 \<in> set (phases t)"
proof -
  from assms obtain ev where ev: "ev \<in> set t" "checks step ev"
    by (auto simp add: checked_def list_ex_iff)
  from ev(2) have "phase ev = [2]"
    by (cases ev) simp_all
  with ev(1) show ?thesis
    by (force simp add: phases_def)
qed

lemma phases_connect: "phases (fst (connectToMongoDB env f)) = [5]"
proof -
  have "x = 5" if "x \<in> set (phases (fst (connectToMongoDB env f)))" for x
    using that connect_kind mongo_kind_phase by (fastforce simp add: phases_def)
  then have r: "phases (fst (connectToMongoDB env f)) =
      replicate (length (phases (fst (connectToMongoDB env f)))) 5"
    by (rule const_replicate)
  have "length (phases (fst (connectToMongoDB env f))) = 1"
    by (simp add: connectToMongoDB_def run_simps fst_connect router_simps fst_call_unit
        returns_call_unit phases_simps init_steps_def split: sum.split)
  with r show ?thesis by simp
qed

lemma phases_mongo_returns:
  assumes "returns (snd (setupMongoDBConnection env config f))"
  shows "phases (fst (setupMongoDBConnection env config f)) = [5]"
  using assms
  by (auto simp add: setupMongoDBConnection_def run_simps fst_call snd_call fst_call_unit
      call_unit_def phases_simps phases_connect split: if_splits sum.splits)

lemma boot_steps_all_phases:
  assumes "returns (snd (boot_steps env config f))"
  shows "\<exists>n>0. phases (fst (boot_steps env config f)) = replicate n 2 @ [3, 4, 5]"
proof -
  let ?a = "phases (fst (setupMiddlewares env f))"
  from assms have m: "returns (snd (setupMiddlewares env f))"
    and n: "returns (new_evaluator env (vmTimeout config) (hook f))"
    and g: "returns (snd (setupMongoDBConnection env config f))"
    by (simp_all add: returns_boot_steps)
  from n obtain ev where ev: "new_evaluator env (vmTimeout config) (hook f) = Inr ev"
    by (auto elim: returnsE)
  have a: "?a = replicate (length ?a) 2"
    using phases_middlewares by (blast intro: const_replicate)
  have "''alias'' \<in> set init_steps"
    by (simp add: init_steps_def)
  from checked_phase [OF middlewares_all_checked [OF m this]] have l: "0 < length ?a"
    by (cases ?a) simp_all
  have "phases (fst (boot_steps env config f)) = ?a @ [3, 4, 5]"
    using m ev phases_mongo_returns [OF g] by (simp add: phases_boot_steps)
  with a l show ?thesis by metis
qed

lemma boot_steps_checked:
  assumes "returns (snd (boot_steps env config f))" and "step \<in> set init_steps"
  shows "checked step (fst (boot_steps env config f))"
proof -
  from assms(1) have "returns (snd (setupMiddlewares env f))"
    by (simp add: returns_boot_steps)
  from middlewares_all_checked [OF this assms(2)] show ?thesis
    by (simp add: fst_boot_steps checked_def)
qed

lemma init_all_phases:
  assumes "returns (snd (router_init env config f hooks_arg))"
  shows "\<exists>n>0. phases (fst (router_init env config f hooks_arg)) =
           [0, 1] @ replicate n 2 @ [3, 4, 5]"
proof -
  from assms obtain h connection where
    t: "fst (router_init env config f hooks_arg) =
           init_prelude hooks_arg @ fst (boot_steps env config (f\<lparr>hooks := hooks_arg, hook := Some h, db := connection\<rparr>))"
    and r: "returns (snd (boot_steps env config (f\<lparr>hooks := hooks_arg, hook := Some h, db := connection\<rparr>)))"
    by (rule router_init_returns)
  from boot_steps_all_phases [OF r] show ?thesis
    unfolding t prelude_phases by auto
qed

lemma init_all_checked:
  assumes "returns (snd (router_init env config f hooks_arg))" and "step \<in> set init_steps"
  shows "checked step (fst (router_init env config f hooks_arg))"
proof -
  from assms(1) obtain h connection where
    t: "fst (router_init env config f hooks_arg) =
           init_prelude hooks_arg @ fst (boot_steps env config (f\<lparr>hooks := hooks_arg, hook := Some h, db := connection\<rparr>))"
    and r: "returns (snd (boot_steps env config (f\<lparr>hooks := hooks_arg, hook := Some h, db := connection\<rparr>)))"
    by (rule router_init_returns)
  from boot_steps_checked [OF r assms(2)] show ?thesis
    unfolding t by (simp add: checked_def)
qed

lemma claimed_prelude:
  "claimed_phases (init_prelude hs @ t) = 0 # 4 # claimed_phases t"
  by (simp add: init_prelude_def claimed_phases_def)

lemma claimed_new_evaluator:
  assumes "NewEvaluator x h \<in> set t"
  shows "2 \<in> set (claimed_phases t)"
proof -
  have "claimed_phase (NewEvaluator x h) = [2]" by simp
  with assms show ?thesis by (force simp add: claimed_phases_def)
qed

lemma cors_stmt_safe:
  assumes "m \<in> set (setupMiddlewares_body env f)"
    and "Router (Use (CorsWrapper opts)) \<in> set (fst m)"
  shows "(\<exists>h. hook f = Some h \<and> alter h ''cors'' [] = Inr opts) \<and>
         HookAlter ''cors'' [] \<in> set (fst m)"
  using assms(1)
  apply (simp add: setupMiddlewares_body_def)
  apply (elim disjE)
  using assms(2)
  apply (auto simp add: stmt_simps split: if_splits sum.splits option.splits)
  done

lemma cors_installed_safe:
  assumes "Router (Use (CorsWrapper opts)) \<in> set (fst (setupMiddlewares env f))"
  shows "(\<exists>h. hook f = Some h \<and> alter h ''cors'' [] = Inr opts) \<and>
         HookAlter ''cors'' [] \<in> set (fst (setupMiddlewares env f))"
proof -
  from assms have "Router (Use (CorsWrapper opts)) \<in> set (fst (seqs (setupMiddlewares_body env f)))"
    by (simp add: setupMiddlewares_def)
  from seqs_event [OF this] obtain m where m: "m \<in> set (setupMiddlewares_body env f)"
    "Router (Use (CorsWrapper opts)) \<in> set (fst m)"
    "set (fst m) \<subseteq> set (fst (seqs (setupMiddlewares_body env f)))"
    by blast
  from cors_stmt_safe [OF m(1) m(2)] m(3) show ?thesis
    by (auto simp add: setupMiddlewares_def)
qed

lemma cors_installed_live:
  assumes "returns (snd (setupMiddlewares env f))"
  shows "\<exists>h opts. hook f = Some h \<and> alter h ''cors'' [] = Inr opts \<and>
           Router (Use (CorsWrapper opts)) \<in> set (fst (setupMiddlewares env f))"
proof -
  let ?m = "bnd (hook_alter f ''cors'' []) (\<lambda>options. router_use (CorsWrapper options))"
  have "?m \<in> set (setupMiddlewares_body env f)"
    by (simp add: setupMiddlewares_body_def)
  moreover from assms have "returns (snd (seqs (setupMiddlewares_body env f)))"
    by (simp add: setupMiddlewares_def)
  ultimately have r: "returns (snd ?m)"
    and s: "set (fst ?m) \<subseteq> set (fst (setupMiddlewares env f))"
    using seqs_returns [of "setupMiddlewares_body env f" ?m]
    by (simp_all add: setupMiddlewares_def)
  from r obtain h where h: "hook f = Some h"
    by (cases "hook f") (simp_all add: stmt_simps)
  with r obtain opts where o: "alter h ''cors'' [] = Inr opts"
    by (cases "alter h ''cors'' []") (simp_all add: stmt_simps)
  from h o have "Router (Use (CorsWrapper opts)) \<in> set (fst ?m)"
    by (simp add: stmt_simps)
  with s h o show ?thesis by blast
qed

lemma sample_middlewares_return:
  "hook f = Some overriding_hook \<Longrightarrow> returns (snd (setupMiddlewares sample_env f))"
  by (simp add: setupMiddlewares_def setupMiddlewares_body_def snd_seqs_Cons snd_seqs_Nil
      stmt_simps overriding_hook_def sample_env_def)

lemma sample_mongo_return:
  "returns (snd (setupMongoDBConnection sample_env sample_config f))"
  by (simp add: setupMongoDBConnection_def connectToMongoDB_def run_simps fst_connect
      router_simps fst_call snd_call returns_call_unit call_unit_def sample_env_def
      sample_config_def)

lemma sample_init_returns:
  "returns (snd (router_init sample_env sample_config f hs))"
proof -
  have "returns (snd (boot_steps sample_env sample_config F))"
    if "hook F = Some overriding_hook" for F
    using that sample_middlewares_return [OF that] sample_mongo_return
    by (simp add: returns_boot_steps) (simp add: sample_env_def)
  then show ?thesis
    by (simp add: router_init_unfold) (simp add: sample_env_def overriding_hook_def)
qed

section \<open>The log and audit functions\<close>

text \<open>
  Claim C6. A call \<^verbatim>\<open>router.formio.log(event, req, ...info)\<close> first calls
  \<^verbatim>\<open>hook.alter('log', event, req, ...info)\<close>; the debug log line is emitted exactly when
  that call returns a truthy value, and the line is made of the original \<open>event\<close> and
  \<open>info\<close>, not of the value \<^verbatim>\<open>alter\<close> returned. (While \<^verbatim>\<open>router.formio.hook\<close> is still
  undefined the call raises a TypeError and nothing is emitted.)
\<close>

theorem log_emits_iff_alter_truthy:
  "fst (formio_log f event req info) =
     (case hook f of
        None \<Rightarrow> []
      | Some h \<Rightarrow>
          HookAlter ''log'' (event # req # info) #
            (if returns_truthy (alter h ''log'' (event # req # info))
             then [DebugLog (event # info)] else []))"
  by (simp add: formio_log_def run_simps fst_hook_alter snd_hook_alter
      split: option.split sum.split)

text \<open>
  Claim C8, as the code has it. When \<^verbatim>\<open>config.audit\<close> is falsy a call
  \<^verbatim>\<open>router.formio.audit(event, req, ...info)\<close> prints nothing and does not touch the hook
  system. When it is truthy, \<^verbatim>\<open>hook.alter('audit', info, event, req)\<close> is called; a falsy
  result prints nothing; a truthy result is spread into \<^verbatim>\<open>console.log\<close>, so an array
  prints its elements and a string its characters (the altered result, not the original
  arguments), while a truthy result that is not iterable raises a TypeError and prints
  nothing.
\<close>

theorem audit_prints_spread_of_altered:
  "formio_audit config f event req info =
     (if truthy (audit config) then
        (case hook f of
           None \<Rightarrow> ([], Inl TypeError)
         | Some h \<Rightarrow>
             (case alter h ''audit'' [JArr info, event, req] of
                Inl e \<Rightarrow> ([HookAlter ''audit'' [JArr info, event, req]], Inl e)
              | Inr result \<Rightarrow>
                  if truthy result
                  then (case spread result of
                          Inl e \<Rightarrow> ([HookAlter ''audit'' [JArr info, event, req]], Inl e)
                        | Inr args \<Rightarrow>
                            ([HookAlter ''audit'' [JArr info, event, req], ConsoleLog args],
                             Inr ()))
                  else ([HookAlter ''audit'' [JArr info, event, req]], Inr ())))
      else ([], Inr ()))"
  by (simp add: formio_audit_def run_simps fst_hook_alter snd_hook_alter prod_eq_iff
      split: option.split sum.split)

text \<open>
  The claim as the spec words it (output occurs if and only if \<^verbatim>\<open>alter\<close> returns a truthy
  value) fails for a handler that answers \<^verbatim>\<open>true\<close>: the result is truthy, and
  \<^verbatim>\<open>console.log(...true)\<close> raises a TypeError before anything is printed.
\<close>

theorem audit_truthy_result_not_printed:
  "returns_truthy (alter approving_hook ''audit'' [JArr [JStr ''admin''], JStr ''AUTH_LOGIN'', JNull]) \<and>
   formio_audit sample_config \<lparr>hooks = JUndefined, hook = Some approving_hook, db = JUndefined\<rparr>
       (JStr ''AUTH_LOGIN'') JNull [JStr ''admin''] =
     ([HookAlter ''audit'' [JArr [JStr ''admin''], JStr ''AUTH_LOGIN'', JNull]], Inl TypeError)"
  by (simp add: formio_audit_def run_simps fst_hook_alter snd_hook_alter prod_eq_iff
      sample_config_def approving_hook_def)

section \<open>The memory-leak-prevention middleware\<close>

text \<open>
  Claim C9. On every request the middleware first assigns fresh empty objects to
  \<^verbatim>\<open>util.Formio.forms\<close> and \<^verbatim>\<open>util.Formio.cache\<close>, then (only when
  \<^verbatim>\<open>config.maxOldSpace\<close> is set) reads the heap usage and may force a garbage collection,
  and last calls \<^verbatim>\<open>next()\<close>, exactly once and whatever happened before: when reading the
  heap usage or the garbage collection throws, the error is caught and given to
  \<^verbatim>\<open>console.log\<close>, and \<^verbatim>\<open>next()\<close> is still called. The middleware itself never throws.
\<close>

theorem memoryLeakPrevention_resets_then_next:
  "fst (memoryLeakPrevention env config) =
     [Assign ''util.Formio.forms'' (JObj []), Assign ''util.Formio.cache'' (JObj [])] @
     (if truthy (maxOldSpace config) then
        Call ''process.memoryUsage'' #
          (case external env ''process.memoryUsage'' of
             Inl e \<Rightarrow> [ConsoleLog [caught e]]
           | Inr heap \<Rightarrow>
               if heap_over env (maxOldSpace config) heap
               then Call ''gc'' #
                 (case external env ''gc'' of Inl e \<Rightarrow> [ConsoleLog [caught e]] | Inr v \<Rightarrow> [])
               else [])
      else []) @ [Next] \<and>
   filter is_next (fst (memoryLeakPrevention env config)) = [Next] \<and>
   snd (memoryLeakPrevention env config) = Inr ()"
  by (simp add: memoryLeakPrevention_def run_simps fst_call snd_call fst_call_unit
      call_unit_def split: option.split sum.split)

section \<open>The defaults of the init steps\<close>



text \<open>
  Claim C10. The CORS wrapper calls \<^verbatim>\<open>next()\<close> directly, without the cors handler, for a
  request whose url is \<^verbatim>\<open>'/'\<close> or whose response headers are already sent, and hands
  every other request to the cors handler. The handler is built from the value that
  \<^verbatim>\<open>hook.alter('cors')\<close> returns, which is called with the name alone and no initial
  value: a wrapper over \<open>opts\<close> is installed only if that call returned \<open>opts\<close>, and
  when \<^verbatim>\<open>setupMiddlewares\<close> returns it is installed. (A hook system that hands back the
  value it was given returns \<^verbatim>\<open>undefined\<close> here, as in the example that follows.)
\<close>

theorem cors_wrapper_bypass:
  "corsWrapper options req res =
     (if url req = JStr ''/'' \<or> truthy (headersSent res) then ([Next], Inr ())
      else ([CorsRoute options], Inr ())) \<and>
   (\<forall>opts. Router (Use (CorsWrapper opts)) \<in> set (fst (setupMiddlewares env f)) \<longrightarrow>
      (\<exists>h. hook f = Some h \<and> alter h ''cors'' [] = Inr opts) \<and>
      HookAlter ''cors'' [] \<in> set (fst (setupMiddlewares env f))) \<and>
   (returns (snd (setupMiddlewares env f)) \<longrightarrow>
      (\<exists>h opts. hook f = Some h \<and> alter h ''cors'' [] = Inr opts \<and>
         Router (Use (CorsWrapper opts)) \<in> set (fst (setupMiddlewares env f))))"
proof -
  have "corsWrapper options req res =
     (if url req = JStr ''/'' \<or> truthy (headersSent res) then ([Next], Inr ())
      else ([CorsRoute options], Inr ()))"
    by (simp add: corsWrapper_def emit_def)
  with cors_installed_safe [of _ env f] cors_installed_live [of env f] show ?thesis
    by blast
qed

theorem cors_wrapper_bypass_witness:
  "returns (snd (setupMiddlewares sample_env sample_formio)) \<and>
   alter overriding_hook ''cors'' [] = Inr JUndefined \<and>
   Router (Use (CorsWrapper JUndefined)) \<in> set (fst (setupMiddlewares sample_env sample_formio)) \<and>
   corsWrapper JUndefined \<lparr>url = JStr ''/''\<rparr> \<lparr>headersSent = JBool False\<rparr> = ([Next], Inr ()) \<and>
   corsWrapper JUndefined \<lparr>url = JStr ''/form''\<rparr> \<lparr>headersSent = JBool True\<rparr> =
     ([Next], Inr ()) \<and>
   corsWrapper JUndefined \<lparr>url = JStr ''/form''\<rparr> \<lparr>headersSent = JBool False\<rparr> =
     ([CorsRoute JUndefined], Inr ())"
proof -
  have r: "returns (snd (setupMiddlewares sample_env sample_formio))"
    by (rule sample_middlewares_return) (simp add: sample_formio_def)
  have a: "alter overriding_hook ''cors'' [] = Inr JUndefined"
    by (simp add: overriding_hook_def)
  from cors_wrapper_bypass [of JUndefined "\<lparr>url = JStr ''/form''\<rparr>"
      "\<lparr>headersSent = JBool False\<rparr>" sample_env sample_formio] r
  have "Router (Use (CorsWrapper JUndefined)) \<in> set (fst (setupMiddlewares sample_env sample_formio))"
    and "corsWrapper JUndefined \<lparr>url = JStr ''/form''\<rparr> \<lparr>headersSent = JBool False\<rparr> =
     ([CorsRoute JUndefined], Inr ())"
    using a by (auto simp add: sample_formio_def)
  with r a show ?thesis
    by (simp add: corsWrapper_def emit_def)
qed

section \<open>The evaluator at boot\<close>



text \<open>
  Claim C1, with the constructor the spec describes (\<open>IsolateVMEvaluator\<close>, which
  refuses a \<^verbatim>\<open>timeoutMs\<close> that is not a positive number with a ConfigurationError; the
  boot file itself passes \<^verbatim>\<open>config.vmTimeout\<close> on unchecked). When
  \<^verbatim>\<open>config.vmTimeout\<close> is absent or not a positive number, \<^verbatim>\<open>router.init\<close> does not
  return, whatever the rest of the environment does, and it registers no evaluator;
  \<^verbatim>\<open>configureEvaluator\<close> ends in the ConfigurationError right after the constructor call.
\<close>

theorem invalid_timeout_fails_boot:
  assumes "\<not> positive_number (vmTimeout config)"
  shows "\<not> returns (snd (router_init (env\<lparr>new_evaluator := IsolateVMEvaluator\<rparr>) config f hooks_arg)) \<and>
         filter is_register
           (fst (router_init (env\<lparr>new_evaluator := IsolateVMEvaluator\<rparr>) config f hooks_arg)) = [] \<and>
         configureEvaluator (env\<lparr>new_evaluator := IsolateVMEvaluator\<rparr>) config f' =
           ([NewEvaluator (vmTimeout config) (hook f')], Inl ConfigurationError)"
proof -
  let ?env = "env\<lparr>new_evaluator := IsolateVMEvaluator\<rparr>"
  have c: "new_evaluator ?env (vmTimeout config) h = Inl ConfigurationError" for h
    using assms by (simp add: IsolateVMEvaluator_def)
  have "\<not> returns (snd (router_init ?env config f hooks_arg))"
    using init_returns_evaluator [of ?env config f hooks_arg] c by auto
  moreover have "filter is_register (fst (router_init ?env config f hooks_arg)) = []"
    using c by (rule init_no_register)
  moreover have "configureEvaluator ?env config f' =
      ([NewEvaluator (vmTimeout config) (hook f')], Inl ConfigurationError)"
    using c [of "hook f'"]
    by (simp add: prod_eq_iff fst_configureEvaluator snd_configureEvaluator)
  ultimately show ?thesis by simp
qed

text \<open>The timeout absent from the configuration.\<close>

theorem invalid_timeout_witness:
  "\<not> positive_number (vmTimeout (sample_config\<lparr>vmTimeout := JUndefined\<rparr>)) \<and>
   \<not> returns (snd (router_init (sample_env\<lparr>new_evaluator := IsolateVMEvaluator\<rparr>)
        (sample_config\<lparr>vmTimeout := JUndefined\<rparr>) sample_formio JNull)) \<and>
   filter is_register (fst (router_init (sample_env\<lparr>new_evaluator := IsolateVMEvaluator\<rparr>)
        (sample_config\<lparr>vmTimeout := JUndefined\<rparr>) sample_formio JNull)) = [] \<and>
   configureEvaluator (sample_env\<lparr>new_evaluator := IsolateVMEvaluator\<rparr>)
        (sample_config\<lparr>vmTimeout := JUndefined\<rparr>) sample_formio =
     ([NewEvaluator JUndefined (Some overriding_hook)], Inl ConfigurationError)"
proof -
  have p: "\<not> positive_number (vmTimeout (sample_config\<lparr>vmTimeout := JUndefined\<rparr>))"
    by simp
  from p invalid_timeout_fails_boot [OF p, of sample_env sample_formio JNull sample_formio]
  show ?thesis by (simp add: sample_formio_def)
qed

section \<open>The order of the boot\<close>

text \<open>
  Claim C3, as the code has it. In every run of \<^verbatim>\<open>router.init\<close>, complete or not, the
  first call creates the hook system, it is created once, and the phases of the calls
  never decrease: after the creation comes \<^verbatim>\<open>router.formio.update.initialize()\<close>, whose
  result is stored as the database connection, then the checks of the init steps with
  the installation of their defaults, then the construction of the evaluator, then its
  registration, then the connection of mongoose to MongoDB. A run that returns went
  through all six phases, once each but for the init steps, and checked each of the nine
  init steps, all of them after the database connection of \<^verbatim>\<open>update.initialize()\<close> and
  before the construction of the evaluator.
\<close>

theorem boot_order:
  "take 1 (fst (router_init env config f hooks_arg)) = [HookCreate hooks_arg] \<and>
   sorted (phases (fst (router_init env config f hooks_arg))) \<and>
   count_list (phases (fst (router_init env config f hooks_arg))) 0 = 1 \<and>
   (returns (snd (router_init env config f hooks_arg)) \<longrightarrow>
      (\<exists>n>0. phases (fst (router_init env config f hooks_arg)) =
         [0, 1] @ replicate n 2 @ [3, 4, 5]) \<and>
      (\<forall>step\<in>set init_steps. checked step (fst (router_init env config f hooks_arg))))"
proof -
  let ?t = "fst (router_init env config f hooks_arg)"
  have t: "?t = HookCreate hooks_arg # tl ?t"
    by (rule init_head)
  from init_phases [of env config f hooks_arg]
  have s: "sorted (phases (tl ?t))" and p: "\<forall>x\<in>set (phases (tl ?t)). 1 \<le> x"
    by simp_all
  have ph: "phases ?t = 0 # phases (tl ?t)"
    by (subst t) (simp add: phases_simps)
  from p have "0 \<notin> set (phases (tl ?t))" by force
  then have c: "count_list (phases (tl ?t)) 0 = 0"
    by (simp add: count_list_0_iff)
  have k: "take 1 ?t = [HookCreate hooks_arg]"
    by (subst t) simp
  from s p have "sorted (0 # phases (tl ?t))" by simp
  with ph c k init_all_phases [of env config f hooks_arg]
    init_all_checked [of env config f hooks_arg]
  show ?thesis by simp
qed

theorem boot_order_witness:
  "returns (snd (router_init sample_env sample_config sample_formio JNull)) \<and>
   take 1 (fst (router_init sample_env sample_config sample_formio JNull)) = [HookCreate JNull] \<and>
   sorted (phases (fst (router_init sample_env sample_config sample_formio JNull))) \<and>
   (\<exists>n>0. phases (fst (router_init sample_env sample_config sample_formio JNull)) =
      [0, 1] @ replicate n 2 @ [3, 4, 5]) \<and>
   checked ''alias'' (fst (router_init sample_env sample_config sample_formio JNull)) \<and>
   checked ''perms'' (fst (router_init sample_env sample_config sample_formio JNull))"
  using boot_order [of sample_env sample_config sample_formio JNull] sample_init_returns
  by (simp add: init_steps_def)

text \<open>
  The claim as the spec words it, with the storage connection established only after the
  evaluator is registered, fails on every boot that gets as far as the evaluator: the
  fifth call of the run is \<^verbatim>\<open>router.formio.update.initialize()\<close>, which gives the
  database connection before any middleware is installed and before the evaluator is
  constructed. Only the connection of mongoose comes last.
\<close>

theorem database_connection_before_middleware:
  "take 5 (fst (router_init sample_env sample_config sample_formio JNull)) =
     [HookCreate JNull, HookAlter ''configFormio'' [JObj [(''Formio'', JFun ''util.Formio'')]],
      Call ''require(./src/util/encrypt)'', Call ''require(./src/db/index)(router.formio)'',
      Call ''router.formio.update.initialize''] \<and>
   \<not> sorted (claimed_phases (fst (router_init sample_env sample_config sample_formio JNull)))"
proof -
  let ?t = "fst (router_init sample_env sample_config sample_formio JNull)"
  have r: "returns (snd (router_init sample_env sample_config sample_formio JNull))"
    by (rule sample_init_returns)
  then obtain h connection where
    t: "?t = init_prelude JNull @ fst (boot_steps sample_env sample_config
          (sample_formio\<lparr>hooks := JNull, hook := Some h, db := connection\<rparr>))"
    by (rule router_init_returns)
  from init_returns_evaluator [OF r] obtain h' ev where
    "filter is_evaluator_event ?t = [NewEvaluator (vmTimeout sample_config) (Some h'), RegisterEvaluator ev]"
    by blast
  then have "NewEvaluator (vmTimeout sample_config) (Some h') \<in> set (filter is_evaluator_event ?t)"
    by simp
  then have "NewEvaluator (vmTimeout sample_config) (Some h') \<in> set ?t"
    by simp
  then have "NewEvaluator (vmTimeout sample_config) (Some h') \<in>
      set (fst (boot_steps sample_env sample_config
          (sample_formio\<lparr>hooks := JNull, hook := Some h, db := connection\<rparr>)))"
    unfolding t by (simp add: init_prelude_def)
  from claimed_new_evaluator [OF this]
  have "\<not> sorted (claimed_phases ?t)"
    unfolding t claimed_prelude by force
  moreover have "take 5 ?t =
     [HookCreate JNull, HookAlter ''configFormio'' [JObj [(''Formio'', JFun ''util.Formio'')]],
      Call ''require(./src/util/encrypt)'', Call ''require(./src/db/index)(router.formio)'',
      Call ''router.formio.update.initialize'']"
    unfolding t by (simp add: init_prelude_def configFormio_args_def)
  ultimately show ?thesis by simp
qed

section \<open>The Hook Registry of the spec\<close>

text \<open>
  Claim C7 (identity law). For every value \<open>v\<close> and every extension point \<open>p\<close> whose
  handler list is empty, \<open>alter(p, v)\<close> returns \<open>v\<close> unchanged, whatever further arguments
  the call carries.
\<close>

theorem alter_identity:
  "reg p = [] \<Longrightarrow> registry_alter reg p v args = Inr v"
  by (simp add: registry_alter_def)

theorem alter_identity_witness:
  "register (\<lambda>p. []) ''cors'' (\<lambda>v args. Inr JNull) ''log'' = [] \<and>
   registry_alter (register (\<lambda>p. []) ''cors'' (\<lambda>v args. Inr JNull)) ''log''
     (JStr ''event'') [JNum 1] = Inr (JStr ''event'')"
proof -
  have e: "register (\<lambda>p. []) ''cors'' (\<lambda>v args. Inr JNull) ''log'' = []"
    by (simp add: register_def)
  from e alter_identity [of "register (\<lambda>p. []) ''cors'' (\<lambda>v args. Inr JNull)" "''log''", OF e]
  show ?thesis by simp
qed

end
